theory Spec2Isabelle
  imports Main "HOL-Library.AList"
begin

section \<open>Characters and strings\<close>

text \<open>
  Identifiers, scopes, contents and payloads are Python \<open>str\<close> values, modelled as
  \<open>string\<close>. Two characters are named because the scripts treat them specially.
\<close>

definition newline :: char where
  "newline = CHR 0x0A"

definition backslash :: char where
  "backslash = CHR 0x5C"

text \<open>\<open>str.lower()\<close> on the ASCII letters (the only ones that can become \<open>y\<close>).\<close>

definition lower_char :: "char \<Rightarrow> char" where
  "lower_char c =
     (case map_of (zip ''ABCDEFGHIJKLMNOPQRSTUVWXYZ'' ''abcdefghijklmnopqrstuvwxyz'') c of
        None \<Rightarrow> c
      | Some l \<Rightarrow> l)"

definition lower :: "string \<Rightarrow> string" where
  "lower s = map lower_char s"

section \<open>The GUID pattern of the scripts\<close>

text \<open>
  \<^verbatim>\<open>guid_pattern = re.compile(r'^[0-9a-fA-F]{8}-[0-9a-fA-F]{4}-[0-9a-fA-F]{4}-[0-9a-fA-F]{4}-[0-9a-fA-F]{12}$')\<close>
  (check_real_memories.py line 12, cleanup_invalid_memories.py line 6).

  The pattern is a sequence of atoms, each repeated a fixed number of times, between the
  anchors \<open>^\<close> and \<open>$\<close>. Every repetition count is exact, so matching never backtracks:
  \<open>match_repeat\<close> consumes exactly \<open>n\<close> characters of the atom or fails.
  \<open>guid_pattern.match(s)\<close> tries the pattern at the start of \<open>s\<close> only.
  Python's \<open>$\<close> (without \<open>re.MULTILINE\<close>) matches at the end of the string and also
  just before a newline that is the last character of the string; \<open>dollar\<close> is the
  test on what is left of the input when \<open>$\<close> is reached.
\<close>

definition hexdigit :: "char \<Rightarrow> bool" where
  "hexdigit c \<longleftrightarrow> c \<in> set ''0123456789abcdefABCDEF''"

datatype atom = HexClass | Lit char

fun atom_ok :: "atom \<Rightarrow> char \<Rightarrow> bool" where
  "atom_ok HexClass c = hexdigit c"
| "atom_ok (Lit l) c = (c = l)"

fun match_repeat :: "atom \<Rightarrow> nat \<Rightarrow> string \<Rightarrow> string option" where
  "match_repeat a 0 s = Some s"
| "match_repeat a (Suc n) [] = None"
| "match_repeat a (Suc n) (c # cs) = (if atom_ok a c then match_repeat a n cs else None)"

fun match_seq :: "(atom \<times> nat) list \<Rightarrow> string \<Rightarrow> string option" where
  "match_seq [] s = Some s"
| "match_seq ((a, n) # r) s =
     (case match_repeat a n s of None \<Rightarrow> None | Some t \<Rightarrow> match_seq r t)"

definition dollar :: "string \<Rightarrow> bool" where
  "dollar rest \<longleftrightarrow> rest = [] \<or> rest = [newline]"

definition re_match :: "(atom \<times> nat) list \<Rightarrow> string \<Rightarrow> bool" where
  "re_match r s = (case match_seq r s of None \<Rightarrow> False | Some rest \<Rightarrow> dollar rest)"

definition guid_pattern :: "(atom \<times> nat) list" where
  "guid_pattern =
     [(HexClass, 8), (Lit CHR ''-'', 1), (HexClass, 4), (Lit CHR ''-'', 1),
      (HexClass, 4), (Lit CHR ''-'', 1), (HexClass, 4), (Lit CHR ''-'', 1), (HexClass, 12)]"

definition guid_match :: "string \<Rightarrow> bool" where
  "guid_match id_val = re_match guid_pattern id_val"

text \<open>
  The Identity Validator of the specification is the branch on \<open>guid_pattern.match\<close>
  (check_real_memories.py lines 25-29): an id goes to \<open>guid_records\<close> or to
  \<open>path_records\<close>.
\<close>

datatype validity = Valid | Invalid

definition classify :: "string \<Rightarrow> validity" where
  "classify id_val = (if guid_match id_val then Valid else Invalid)"

text \<open>
  The canonical form in the specification's words: exactly 36 characters, groups of
  8, 4, 4, 4 and 12 hexadecimal digits (either case) joined by single hyphens.
\<close>

definition canonical :: "string \<Rightarrow> bool" where
  "canonical s \<longleftrightarrow>
     length s = 36 \<and>
     list_all hexdigit (take 8 s) \<and> s ! 8 = CHR ''-'' \<and>
     list_all hexdigit (take 4 (drop 9 s)) \<and> s ! 13 = CHR ''-'' \<and>
     list_all hexdigit (take 4 (drop 14 s)) \<and> s ! 18 = CHR ''-'' \<and>
     list_all hexdigit (take 4 (drop 19 s)) \<and> s ! 23 = CHR ''-'' \<and>
     list_all hexdigit (drop 24 s)"

section \<open>SQLite's LIKE\<close>

text \<open>
  \<open>like pattern text\<close>. SQLite hands both operands to its matcher as NUL-terminated
  strings, so each is read only up to its first NUL character (\<open>c_string\<close>). In the
  matcher \<open>%\<close> matches any run of characters (also none), \<open>_\<close> matches exactly one
  character, any other character matches itself, ASCII letters without regard to case.
  No ESCAPE clause is given in the script, so the backslash is an ordinary character.
\<close>

definition c_string :: "string \<Rightarrow> string" where
  "c_string s = takeWhile (\<lambda>c. c \<noteq> CHR 0x00) s"

fun like_match :: "string \<Rightarrow> string \<Rightarrow> bool" where
  "like_match [] s = (s = [])"
| "like_match (p # ps) [] = (p = CHR ''%'' \<and> like_match ps [])"
| "like_match (p # ps) (c # cs) =
     (if p = CHR ''%'' then like_match ps (c # cs) \<or> like_match (p # ps) cs
      else (p = CHR ''_'' \<or> lower_char p = lower_char c) \<and> like_match ps cs)"

definition like :: "string \<Rightarrow> string \<Rightarrow> bool" where
  "like pattern text = like_match (c_string pattern) (c_string text)"

section \<open>The memories table\<close>

text \<open>
  A row of table \<open>memories\<close>; \<open>id_val\<close> is the column \<open>id\<close> under the name the scripts
  bind it to. The table is the list of its rows in the order a \<open>SELECT\<close> without
  \<open>ORDER BY\<close> returns them. Every statement takes the table and returns its result
  together with the table it leaves behind.
\<close>

record memory =
  id_val :: string
  scope :: string
  content :: string
  json_data :: string

type_synonym memories = "memory list"

definition select_id :: "memories \<Rightarrow> string list \<times> memories" where
  \<comment> \<open>\<open>SELECT id FROM memories\<close>\<close>
  "select_id db = (map id_val db, db)"

definition select_id_scope :: "memories \<Rightarrow> (string \<times> string) list \<times> memories" where
  \<comment> \<open>\<open>SELECT id, scope FROM memories\<close>\<close>
  "select_id_scope db = (map (\<lambda>m. (id_val m, scope m)) db, db)"

definition select_where_scope ::
    "string \<Rightarrow> memories \<Rightarrow> (string \<times> string \<times> string) list \<times> memories" where
  \<comment> \<open>\<open>SELECT id, content, json_data FROM memories WHERE scope = ?\<close>\<close>
  "select_where_scope s db =
     (map (\<lambda>m. (id_val m, content m, json_data m)) (filter (\<lambda>m. scope m = s) db), db)"

text \<open>
  \<open>SELECT scope, COUNT(*) FROM memories GROUP BY scope\<close>: one output row per distinct
  scope with the number of rows that carry it. The groups are built row by row;
  \<open>bump\<close> adds one row to its group, opening the group when the scope is new. (SQLite
  does not promise an order of the groups; here they come in order of first appearance.)
\<close>

fun bump :: "string \<Rightarrow> (string \<times> nat) list \<Rightarrow> (string \<times> nat) list" where
  "bump s [] = [(s, 1)]"
| "bump s ((k, n) # g) = (if k = s then (k, Suc n) # g else (k, n) # bump s g)"

fun group_count :: "string list \<Rightarrow> (string \<times> nat) list \<Rightarrow> (string \<times> nat) list" where
  "group_count [] g = g"
| "group_count (s # ss) g = group_count ss (bump s g)"

definition select_scope_count :: "memories \<Rightarrow> (string \<times> nat) list \<times> memories" where
  "select_scope_count db = (group_count (map scope db) [], db)"

text \<open>
  The statement of cleanup_invalid_memories.py lines 30-34. The Python literal is not
  raw, so \<^verbatim>\<open>'%\\%'\<close> reaches SQLite as percent, backslash, percent.
  \<open>rowcount\<close> is the number of rows the statement removed.
\<close>

definition delete_where :: "string \<Rightarrow> bool" where
  "delete_where i \<longleftrightarrow>
     \<not> like ''________-____-____-____-____________'' i
     \<or> like ''%/%'' i
     \<or> like [CHR ''%'', backslash, CHR ''%''] i"

definition delete_invalid :: "memories \<Rightarrow> nat \<times> memories" where
  "delete_invalid db =
     (length (filter (\<lambda>m. delete_where (id_val m)) db),
      filter (\<lambda>m. \<not> delete_where (id_val m)) db)"

section \<open>check_real_memories.py\<close>

text \<open>
  Lines 22-29: the loop that files every \<open>(id, scope)\<close> row under \<open>guid_records\<close> or
  \<open>path_records\<close>, appending in the order read.
\<close>

fun split_records ::
    "(string \<times> string) list \<Rightarrow> (string \<times> string) list \<Rightarrow> (string \<times> string) list
      \<Rightarrow> (string \<times> string) list \<times> (string \<times> string) list" where
  "split_records [] guid_records path_records = (guid_records, path_records)"
| "split_records ((i, s) # records) guid_records path_records =
     (if guid_match i then split_records records (guid_records @ [(i, s)]) path_records
      else split_records records guid_records (path_records @ [(i, s)]))"

record id_report =
  total :: nat
  guid_records :: "(string \<times> string) list"
  path_records :: "(string \<times> string) list"
  arch_records :: "(string \<times> string \<times> string) list"

definition check_real_memories :: "memories \<Rightarrow> id_report \<times> memories" where
  "check_real_memories db =
     (case select_id_scope db of (records, db1) \<Rightarrow>
      case split_records records [] [] of (gs, ps) \<Rightarrow>
      case select_where_scope ''ArchitecturalDecision'' db1 of (arch, db2) \<Rightarrow>
        (\<lparr>total = length records, guid_records = gs, path_records = ps, arch_records = arch\<rparr>,
         db2))"

text \<open>The specification's \<open>find_invalid_ids\<close>: the ids filed under \<open>path_records\<close>.\<close>

definition find_invalid_ids :: "memories \<Rightarrow> string list" where
  "find_invalid_ids db = map fst (path_records (fst (check_real_memories db)))"

section \<open>cleanup_invalid_memories.py\<close>

text \<open>
  Lines 16-24 are the plan: read every id, count those the pattern rejects. Lines 26-43
  are the commit: when the count is positive the operator is asked; on \<open>y\<close> (in either
  case) the \<open>DELETE\<close> runs and is committed, and the remaining rows are counted by scope.
  The commit half takes the count and the table as separate arguments, because the
  table it runs against is whatever the database holds at that moment.
\<close>

fun count_invalid :: "string list \<Rightarrow> nat \<Rightarrow> nat" where
  "count_invalid [] invalid_count = invalid_count"
| "count_invalid (i # all_ids) invalid_count =
     count_invalid all_ids (if \<not> guid_match i then invalid_count + 1 else invalid_count)"

definition plan_purge :: "memories \<Rightarrow> nat \<times> memories" where
  "plan_purge db = (case select_id db of (all_ids, db1) \<Rightarrow> (count_invalid all_ids 0, db1))"

datatype purge_outcome =
    Deleted nat "(string \<times> nat) list"
  | Declined
  | NothingFound

definition commit_purge :: "nat \<Rightarrow> string \<Rightarrow> memories \<Rightarrow> purge_outcome \<times> memories" where
  "commit_purge invalid_count response db =
     (if invalid_count > 0 then
        if lower response = ''y'' then
          (case delete_invalid db of (rowcount, db1) \<Rightarrow>
           case select_scope_count db1 of (remaining, db2) \<Rightarrow>
             (Deleted rowcount remaining, db2))
        else (Declined, db)
      else (NothingFound, db))"

definition cleanup_invalid_memories :: "string \<Rightarrow> memories \<Rightarrow> purge_outcome \<times> memories" where
  "cleanup_invalid_memories response db =
     (case plan_purge db of (invalid_count, db1) \<Rightarrow> commit_purge invalid_count response db1)"

section \<open>Rows used as concrete inputs\<close>

text \<open>
  The two rows of the specification's Scenario A, a row whose id has the hyphens of a
  GUID but no hexadecimal digits, a row whose id is a GUID followed by a newline, and
  two rows with a NUL character in the id: after a GUID, and inside 36 characters laid
  out like a GUID.
\<close>

definition guid_row :: memory where
  "guid_row = \<lparr>id_val = ''a1b2c3d4-e5f6-7890-abcd-ef1234567890'', scope = ''Note'',
     content = ''x'', json_data = ''''\<rparr>"

definition path_row :: memory where
  "path_row = \<lparr>id_val = ''C:'' @ [backslash] @ ''proj'' @ [backslash] @ ''file.py'',
     scope = ''Note'', content = ''y'', json_data = ''''\<rparr>"

definition slash_row :: memory where
  "slash_row = \<lparr>id_val = ''notes/todo.md'', scope = ''ArchitecturalDecision'',
     content = ''z'', json_data = ''''\<rparr>"

definition stray_row :: memory where
  "stray_row = \<lparr>id_val = ''gggggggg-gggg-gggg-gggg-gggggggggggg'', scope = ''Note'',
     content = ''x'', json_data = ''''\<rparr>"

definition newline_row :: memory where
  "newline_row = \<lparr>id_val = ''a1b2c3d4-e5f6-7890-abcd-ef1234567890'' @ [newline],
     scope = ''Note'', content = ''x'', json_data = ''''\<rparr>"

definition nul_tail_row :: memory where
  "nul_tail_row = \<lparr>id_val = ''a1b2c3d4-e5f6-7890-abcd-ef1234567890'' @ [CHR 0x00],
     scope = ''Note'', content = ''x'', json_data = ''''\<rparr>"

definition nul_inside_row :: memory where
  "nul_inside_row = \<lparr>id_val = ''a1b2'' @ [CHR 0x00] @ ''3d4-e5f6-7890-abcd-ef1234567890'',
     scope = ''Note'', content = ''x'', json_data = ''''\<rparr>"

section \<open>check_memory_ids.py\<close>

text \<open>
  Lines 10-17. The script reads the \<open>(id, scope)\<close> rows of one backup table into the
  dictionary \<open>backup_ids\<close> (id to scope, a Python \<open>dict\<close>: a new key goes to the end,
  an assignment to a present key replaces its value in place). Before each assignment
  it tests whether the id is already a key and, if so, prints the id with the scope the
  dictionary holds for it and the scope of the row at hand. A printed line is kept as
  the triple (id, scope held, scope of the row).
\<close>

type_synonym duplicate_line = "string \<times> string \<times> string"

fun backup_loop ::
    "(string \<times> string) list \<Rightarrow> duplicate_line list \<Rightarrow> (string \<times> string) list
      \<Rightarrow> duplicate_line list \<times> (string \<times> string) list" where
  "backup_loop [] printed backup_ids = (printed, backup_ids)"
| "backup_loop ((i, s) # rows) printed backup_ids =
     backup_loop rows
       (case map_of backup_ids i of
          None \<Rightarrow> printed
        | Some held \<Rightarrow> printed @ [(i, held, s)])
       (AList.update i s backup_ids)"

record ids_report =
  duplicates :: "duplicate_line list"
  backup_ids :: "(string \<times> string) list"
  unique_ids :: nat

definition check_memory_ids :: "memories \<Rightarrow> ids_report \<times> memories" where
  "check_memory_ids db =
     (case select_id_scope db of (rows, db1) \<Rightarrow>
      case backup_loop rows [] [] of (printed, ids) \<Rightarrow>
        (\<lparr>duplicates = printed, backup_ids = ids, unique_ids = length ids\<rparr>, db1))"

text \<open>
  The line a row is expected to give, in the words of the amended claim: given the rows
  read before it, nothing when no earlier row has its id, and otherwise the id with the
  scope of the latest earlier row of that id and the row's own scope.
\<close>

definition expected_line ::
    "(string \<times> string) list \<Rightarrow> string \<times> string \<Rightarrow> duplicate_line list" where
  "expected_line earlier row =
     (case map_of (rev earlier) (fst row) of
        None \<Rightarrow> []
      | Some held \<Rightarrow> [(fst row, held, snd row)])"

text \<open>
  Scenario B of the specification: two snapshots, each a table of its own with one row,
  that share an id under different scopes. And one table in which that id occurs three
  times (a backup table without a uniqueness constraint, the case the script's own
  test is written for).
\<close>

definition shared_id :: string where
  "shared_id = ''11112222-3333-4444-5555-666677778888''"

definition note_snapshot :: memories where
  "note_snapshot =
     [\<lparr>id_val = shared_id, scope = ''Note'', content = ''a'', json_data = ''''\<rparr>]"

definition decision_snapshot :: memories where
  "decision_snapshot =
     [\<lparr>id_val = shared_id, scope = ''ArchitecturalDecision'', content = ''b'', json_data = ''''\<rparr>]"

definition triple_rows :: memories where
  "triple_rows =
     [\<lparr>id_val = shared_id, scope = ''Note'', content = ''a'', json_data = ''''\<rparr>,
      \<lparr>id_val = shared_id, scope = ''ArchitecturalDecision'', content = ''b'', json_data = ''''\<rparr>,
      \<lparr>id_val = shared_id, scope = ''TechnicalDebt'', content = ''c'', json_data = ''''\<rparr>]"

section \<open>inspect_backup.py\<close>

text \<open>
  Lines 32-49: for each of the first five rows the script prints the id, the scope and
  the first 100 characters of the content, then tries to list the names under the key
  \<open>fields\<close> of the decoded \<open>json_data\<close>:
  \<^verbatim>\<open>
  try:
      data = json.loads(json_data)
      if 'fields' in data:
          fields = data['fields']
          print(f"   Fields in document:")
          for field_name in fields:
              print(f"     - {field_name}")
  except:
      print("   Could not parse JSON data")
  \<close>

  What \<open>json.loads\<close> returns is a value of \<open>json\<close>, or an exception. The decoder
  itself belongs to Python's library and is a parameter \<open>loads\<close> of the model. Numbers
  (Python \<open>int\<close> or \<open>float\<close>) are never looked into by the script, so their carrier is
  the type parameter. An object is a \<open>dict\<close>: its items in order, keys distinct.
\<close>

datatype 'n json =
    JNull
  | JBool bool
  | JNumber 'n
  | JString string
  | JArray "'n json list"
  | JObject "(string \<times> 'n json) list"

text \<open>
  The exceptions that occur in the scripts and in the memory manager. \<open>OSError n\<close> is
  an \<open>OSError\<close> with errno \<open>n\<close> that has no subclass of its own (36 is
  \<open>ENAMETOOLONG\<close>).
\<close>

datatype py_exception =
    JSONDecodeError
  | TypeError
  | KeyError
  | ValueError
  | FileNotFoundError
  | NotADirectoryError
  | IsADirectoryError
  | OSError nat

text \<open>\<open>sub in s\<close> on two strings: \<open>sub\<close> occurs in \<open>s\<close> as a contiguous run.\<close>

fun starts_with :: "string \<Rightarrow> string \<Rightarrow> bool" where
  "starts_with [] s = True"
| "starts_with (p # ps) [] = False"
| "starts_with (p # ps) (c # cs) = (p = c \<and> starts_with ps cs)"

fun str_contains :: "string \<Rightarrow> string \<Rightarrow> bool" where
  "str_contains sub [] = (sub = [])"
| "str_contains sub (c # cs) = (starts_with sub (c # cs) \<or> str_contains sub cs)"

text \<open>
  \<open>key in data\<close>: a key test on a dict, an element test on a list, a substring test
  on a string; \<open>None\<close>, booleans and numbers are not iterable and raise \<open>TypeError\<close>.
\<close>

fun py_in :: "string \<Rightarrow> 'n json \<Rightarrow> py_exception + bool" where
  "py_in k (JObject items) = Inr (k \<in> set (map fst items))"
| "py_in k (JArray xs) = Inr (JString k \<in> set xs)"
| "py_in k (JString s) = Inr (str_contains k s)"
| "py_in k JNull = Inl TypeError"
| "py_in k (JBool b) = Inl TypeError"
| "py_in k (JNumber n) = Inl TypeError"

text \<open>
  \<open>data[key]\<close> with a string key: the value under the key of a dict (\<open>KeyError\<close> when
  absent); a list or a string cannot be indexed by a string, the other values cannot
  be indexed at all.
\<close>

fun py_getitem :: "'n json \<Rightarrow> string \<Rightarrow> py_exception + 'n json" where
  "py_getitem (JObject items) k =
     (case map_of items k of None \<Rightarrow> Inl KeyError | Some v \<Rightarrow> Inr v)"
| "py_getitem (JArray xs) k = Inl TypeError"
| "py_getitem (JString s) k = Inl TypeError"
| "py_getitem JNull k = Inl TypeError"
| "py_getitem (JBool b) k = Inl TypeError"
| "py_getitem (JNumber n) k = Inl TypeError"

text \<open>
  \<open>for x in value\<close>: the keys of a dict, the elements of a list, the characters of a
  string; the other values raise \<open>TypeError\<close>.
\<close>

fun py_iter :: "'n json \<Rightarrow> py_exception + 'n json list" where
  "py_iter (JObject items) = Inr (map (\<lambda>item. JString (fst item)) items)"
| "py_iter (JArray xs) = Inr xs"
| "py_iter (JString s) = Inr (map (\<lambda>c. JString [c]) s)"
| "py_iter JNull = Inl TypeError"
| "py_iter (JBool b) = Inl TypeError"
| "py_iter (JNumber n) = Inl TypeError"

text \<open>
  The lines the block prints. A bare \<open>except:\<close> catches every exception, whichever
  statement of the \<open>try\<close> raised it; what was printed before stays printed.
\<close>

datatype 'n out_line = FieldsHeader | FieldName "'n json" | CouldNotParse

definition show_fields :: "py_exception + 'n json \<Rightarrow> 'n out_line list" where
  "show_fields loaded =
     (case loaded of
        Inl e \<Rightarrow> [CouldNotParse]
      | Inr data \<Rightarrow>
          (case py_in ''fields'' data of
             Inl e \<Rightarrow> [CouldNotParse]
           | Inr False \<Rightarrow> []
           | Inr True \<Rightarrow>
               (case py_getitem data ''fields'' of
                  Inl e \<Rightarrow> [CouldNotParse]
                | Inr fields' \<Rightarrow>
                    FieldsHeader #
                      (case py_iter fields' of
                         Inl e \<Rightarrow> [CouldNotParse]
                       | Inr names \<Rightarrow> map FieldName names))))"

definition inspect_fields ::
    "(string \<Rightarrow> py_exception + 'n json) \<Rightarrow> string \<Rightarrow> 'n out_line list" where
  "inspect_fields loads raw = show_fields (loads raw)"

record 'n sample =
  sample_id :: string
  sample_scope :: string
  content_preview :: string
  field_lines :: "'n out_line list"

definition inspect_record :: "(string \<Rightarrow> py_exception + 'n json) \<Rightarrow> memory \<Rightarrow> 'n sample" where
  "inspect_record loads m =
     \<lparr>sample_id = id_val m, sample_scope = scope m, content_preview = take 100 (content m),
      field_lines = inspect_fields loads (json_data m)\<rparr>"

definition select_sample :: "memories \<Rightarrow> memories \<times> memories" where
  \<comment> \<open>\<open>SELECT id, scope, content, json_data FROM memories LIMIT 5\<close>\<close>
  "select_sample db = (take 5 db, db)"

definition sample_records ::
    "(string \<Rightarrow> py_exception + 'n json) \<Rightarrow> memories \<Rightarrow> 'n sample list \<times> memories" where
  "sample_records loads db =
     (case select_sample db of (records, db1) \<Rightarrow> (map (inspect_record loads) records, db1))"

text \<open>
  \<open>json.loads\<close> at the payloads used as concrete inputs below: an unfinished object
  is rejected, \<open>[]\<close> is the empty list, \<open>5\<close> a number, \<open>null\<close> is \<open>None\<close>, \<open>{}\<close>
  the empty dict. (Any other payload is not needed and is given the decoder's error.)
\<close>

definition loads_examples :: "string \<Rightarrow> py_exception + int json" where
  "loads_examples raw =
     (if raw = ''[]'' then Inr (JArray [])
      else if raw = ''5'' then Inr (JNumber 5)
      else if raw = ''null'' then Inr JNull
      else if raw = ''{}'' then Inr (JObject [])
      else Inl JSONDecodeError)"

definition broken_row :: memory where
  "broken_row = \<lparr>id_val = ''a1b2c3d4-e5f6-7890-abcd-ef1234567890'', scope = ''Note'',
     content = ''x'', json_data = ''{not json''\<rparr>"

definition array_row :: memory where
  "array_row = \<lparr>id_val = ''a1b2c3d4-e5f6-7890-abcd-ef1234567890'', scope = ''Note'',
     content = ''x'', json_data = ''[]''\<rparr>"

section \<open>MemoriesManager (agent_search_replace_regex.py)\<close>

subsection \<open>The name \<open>open\<close>\<close>

text \<open>
  Lines 5-10 of the module are star imports. \<open>from os import *\<close> binds \<open>open\<close> to
  \<open>os.open\<close>, and \<open>from webbrowser import *\<close>, the last of them, binds it to
  \<open>webbrowser.open(url, new=0, autoraise=True)\<close>; nothing later in the file binds the
  name again. So the two calls in the class, \<open>open(memory_file_path, encoding="utf-8")\<close>
  and \<open>open(memory_file_path, "w", encoding="utf-8")\<close>, are calls of
  \<open>webbrowser.open\<close>. A Python call raises \<open>TypeError\<close> while its arguments are
  bound, before the body runs, when it passes more positional arguments than there are
  parameters, a keyword that is no parameter or is already filled by position, or
  leaves a required parameter empty. \<open>call_open\<close> gives the exception of that step for
  a call with the given number of positional arguments and the given keywords.
\<close>

definition webbrowser_open_parameters :: "string list" where
  "webbrowser_open_parameters = [''url'', ''new'', ''autoraise'']"

definition call_open :: "nat \<Rightarrow> string list \<Rightarrow> py_exception option" where
  "call_open positional keywords =
     (if positional \<le> length webbrowser_open_parameters
         \<and> set keywords \<subseteq> set (drop positional webbrowser_open_parameters)
         \<and> distinct keywords
         \<and> (0 < positional \<or> ''url'' \<in> set keywords)
      then None else Some TypeError)"

subsection \<open>Paths\<close>

text \<open>
  Lines 68-72. \<open>name.replace(".md", "")\<close> removes the occurrences of \<open>.md\<close> found in
  one pass from left to right, and \<open>.md\<close> is appended to the result. The file name is
  then joined to the memory directory with pathlib's \<open>/\<close>.

  A path is the tuple of its pathlib parts, the root (\<open>/\<close> or \<open>//\<close>) first when the
  path is absolute. Joining a string to a path (POSIX flavour) splits the string at
  \<open>/\<close>, drops empty components and \<open>.\<close> components, and keeps \<open>..\<close>; a string
  that starts with a slash is absolute and replaces the base, with root \<open>//\<close> when it
  starts with exactly two slashes.

  \<open>self._memory_dir\<close> is built from \<open>get_serena_managed_in_project_dir\<close>, a function of
  a package outside the repository; it is the parameter \<open>memory_dir\<close>.
\<close>

fun replace_md :: "string \<Rightarrow> string" where
  "replace_md (a # b # c # rest) =
     (if a = CHR ''.'' \<and> b = CHR ''m'' \<and> c = CHR ''d'' then replace_md rest
      else a # replace_md (b # c # rest))"
| "replace_md s = s"

type_synonym path = "string list"

fun split_sep :: "string \<Rightarrow> string list" where
  "split_sep [] = [[]]"
| "split_sep (c # cs) =
     (if c = CHR ''/'' then [] # split_sep cs
      else (case split_sep cs of [] \<Rightarrow> [[c]] | w # ws \<Rightarrow> (c # w) # ws))"

definition components :: "string \<Rightarrow> string list" where
  "components rel = filter (\<lambda>x. x \<noteq> [] \<and> x \<noteq> ''.'') (split_sep rel)"

definition splitroot :: "string \<Rightarrow> string \<times> string" where
  "splitroot part =
     (let stripped = dropWhile (\<lambda>c. c = CHR ''/'') part;
          slashes = length part - length stripped
      in (if slashes = 0 then [] else if slashes = 2 then ''//'' else ''/'', stripped))"

definition joinpath :: "path \<Rightarrow> string \<Rightarrow> path" where
  "joinpath base part =
     (case splitroot part of (root, rel) \<Rightarrow>
        if root = [] then base @ components rel else root # components rel)"

definition get_memory_file_path :: "path \<Rightarrow> string \<Rightarrow> path" where
  "get_memory_file_path memory_dir name = joinpath memory_dir (replace_md name @ ''.md'')"

subsection \<open>The methods\<close>

text \<open>
  What the file system answers is not the manager's to decide. The two pathlib calls
  that reach it are parameters of the model, over any type \<open>'fs\<close> of file system states:
  \<open>Path.exists()\<close> answers True or False or raises (it returns False for a missing
  path, and lets other errors of \<open>stat\<close> through), and \<open>Path.unlink()\<close> either raises
  or leaves a new state.

  In \<open>load_memory\<close> and \<open>save_memory\<close> the \<open>with open(...)\<close> statement raises in
  either case: the call does, when its arguments cannot be bound; and if they could,
  \<open>webbrowser.open\<close> would return a \<open>bool\<close>, which \<open>with\<close> rejects.
\<close>

record 'fs platform =
  path_exists :: "'fs \<Rightarrow> path \<Rightarrow> py_exception + bool"
  path_unlink :: "'fs \<Rightarrow> path \<Rightarrow> py_exception + 'fs"

definition load_memory ::
    "'fs platform \<Rightarrow> path \<Rightarrow> string \<Rightarrow> 'fs \<Rightarrow> py_exception + string" where
  "load_memory pf memory_dir name fs =
     (let memory_file_path = get_memory_file_path memory_dir name in
      case path_exists pf fs memory_file_path of
        Inl e \<Rightarrow> Inl e
      | Inr False \<Rightarrow>
          Inr (''Memory file '' @ name
            @ '' not found, consider creating it with the `write_memory` tool if you need it.'')
      | Inr True \<Rightarrow>
          (case call_open 1 [''encoding''] of Some e \<Rightarrow> Inl e | None \<Rightarrow> Inl TypeError))"

definition save_memory :: "path \<Rightarrow> string \<Rightarrow> string \<Rightarrow> py_exception + string" where
  "save_memory memory_dir name content' =
     (let memory_file_path = get_memory_file_path memory_dir name in
      case call_open 2 [''encoding''] of Some e \<Rightarrow> Inl e | None \<Rightarrow> Inl TypeError)"


text \<open>
  A caller that saves under one name and then loads under another; an exception of the
  first call ends it.
\<close>

definition save_then_load ::
    "'fs platform \<Rightarrow> path \<Rightarrow> string \<Rightarrow> string \<Rightarrow> string \<Rightarrow> 'fs \<Rightarrow> py_exception + string" where
  "save_then_load pf memory_dir name content' name' fs =
     (case save_memory memory_dir name content' of
        Inl e \<Rightarrow> Inl e
      | Inr confirmation \<Rightarrow> load_memory pf memory_dir name' fs)"


subsection \<open>A platform for the concrete inputs\<close>

text \<open>
  A Linux file system that consists of its root directory alone, holding regular files
  (the list of file names with their contents); the memory directory is the root. A path is resolved
  component by component: \<open>..\<close> at the root stays at the root; a component of more
  than 255 bytes is refused with errno 36; a component that is not the last would have
  to be a directory, and there is none (\<open>ENOENT\<close> when nothing has the name,
  \<open>ENOTDIR\<close> when a file has it). Before that, a path holding a NUL character is
  rejected by Python with \<open>ValueError\<close>, and a path of 4096 bytes or more is refused
  with errno 36. \<open>Path.exists()\<close> turns \<open>ValueError\<close>, \<open>ENOENT\<close> and \<open>ENOTDIR\<close>
  into False and lets the other errors through.
\<close>

definition utf8_length :: "string \<Rightarrow> nat" where
  "utf8_length s = sum_list (map (\<lambda>c. if (of_char c :: nat) < 128 then 1 else 2) s)"

fun join_sep :: "string list \<Rightarrow> string" where
  "join_sep [] = []"
| "join_sep [c] = c"
| "join_sep (c # d # rest) = c @ ''/'' @ join_sep (d # rest)"

definition is_root :: "string \<Rightarrow> bool" where
  "is_root part \<longleftrightarrow> part = ''/'' \<or> part = ''//''"

definition path_string :: "path \<Rightarrow> string" where
  "path_string p =
     (case p of
        [] \<Rightarrow> ''.''
      | r # rest \<Rightarrow> if is_root r then r @ join_sep rest else join_sep (r # rest))"

datatype target = Root | Entry string

type_synonym flat_files = "(string \<times> string) list"

fun walk :: "flat_files \<Rightarrow> string list \<Rightarrow> py_exception + target" where
  "walk files [] = Inr Root"
| "walk files (c # rest) =
     (if c = ''..'' \<or> c = ''.'' then walk files rest
      else if 255 < utf8_length c then Inl (OSError 36)
      else if rest = [] then Inr (Entry c)
      else (case map_of files c of
              None \<Rightarrow> Inl FileNotFoundError
            | Some stored \<Rightarrow> Inl NotADirectoryError))"

definition resolve :: "flat_files \<Rightarrow> path \<Rightarrow> py_exception + target" where
  "resolve files p =
     (if CHR 0x00 \<in> set (concat p) then Inl ValueError
      else if 4096 \<le> utf8_length (path_string p) then Inl (OSError 36)
      else walk files (case p of [] \<Rightarrow> [] | r # rest \<Rightarrow> if is_root r then rest else r # rest))"

definition ignored_by_exists :: "py_exception \<Rightarrow> bool" where
  "ignored_by_exists e \<longleftrightarrow> e = ValueError \<or> e = FileNotFoundError \<or> e = NotADirectoryError"

definition single_exists :: "flat_files \<Rightarrow> path \<Rightarrow> py_exception + bool" where
  "single_exists files p =
     (case resolve files p of
        Inl e \<Rightarrow> if ignored_by_exists e then Inr False else Inl e
      | Inr Root \<Rightarrow> Inr True
      | Inr (Entry f) \<Rightarrow> Inr (map_of files f \<noteq> None))"

definition single_unlink :: "flat_files \<Rightarrow> path \<Rightarrow> py_exception + flat_files" where
  "single_unlink files p =
     (case resolve files p of
        Inl e \<Rightarrow> Inl e
      | Inr Root \<Rightarrow> Inl IsADirectoryError
      | Inr (Entry f) \<Rightarrow>
          (case map_of files f of
             None \<Rightarrow> Inl FileNotFoundError
           | Some stored \<Rightarrow> Inr (AList.delete f files)))"

definition single_dir :: "flat_files platform" where
  "single_dir = \<lparr>path_exists = single_exists, path_unlink = single_unlink\<rparr>"

definition root_dir :: path where
  "root_dir = [''/'']"

definition notes_fs :: flat_files where
  "notes_fs = [(''notes.md'', ''remember'')]"



section \<open>What the pattern accepts\<close>

lemma match_repeat_eq:
  "match_repeat a n s =
     (if n \<le> length s \<and> list_all (atom_ok a) (take n s) then Some (drop n s) else None)"
  by (induction a n s rule: match_repeat.induct) auto

lemma match_hex_iff:
  "match_seq ((HexClass, n) # r) s = Some t \<longleftrightarrow>
     n \<le> length s \<and> list_all hexdigit (take n s) \<and> match_seq r (drop n s) = Some t"
proof -
  have "atom_ok HexClass = hexdigit" by (rule ext) simp
  then show ?thesis by (auto simp: match_repeat_eq)
qed

lemma match_lit_iff:
  "match_seq ((Lit l, Suc 0) # r) s = Some t \<longleftrightarrow>
     Suc 0 \<le> length s \<and> s ! 0 = l \<and> match_seq r (drop (Suc 0) s) = Some t"
  by (cases s) (auto simp: match_repeat_eq)

lemma match_seq_guid_unfolded:
  "match_seq guid_pattern s = Some t \<longleftrightarrow>
     36 \<le> length s \<and> 
     list_all hexdigit (take 8 s) \<and> s ! 8 = CHR ''-'' \<and>
     list_all hexdigit (take 4 (drop 9 s)) \<and> s ! 13 = CHR ''-'' \<and>
     list_all hexdigit (take 4 (drop 14 s)) \<and> s ! 18 = CHR ''-'' \<and>
     list_all hexdigit (take 4 (drop 19 s)) \<and> s ! 23 = CHR ''-'' \<and>
     list_all hexdigit (take 12 (drop 24 s)) \<and> t = drop 36 s"
  (is "?L \<longleftrightarrow> ?R")
proof
  assume ?L
  then have l: "8 \<le> length s \<and> list_all hexdigit (take 8 s) \<and>
     Suc 0 \<le> length s - 8 \<and> drop 8 s ! 0 = CHR ''-'' \<and>
     4 \<le> length s - 9 \<and> list_all hexdigit (take 4 (drop 9 s)) \<and>
     Suc 0 \<le> length s - 13 \<and> drop 13 s ! 0 = CHR ''-'' \<and>
     4 \<le> length s - 14 \<and> list_all hexdigit (take 4 (drop 14 s)) \<and>
     Suc 0 \<le> length s - 18 \<and> drop 18 s ! 0 = CHR ''-'' \<and>
     4 \<le> length s - 19 \<and> list_all hexdigit (take 4 (drop 19 s)) \<and>
     Suc 0 \<le> length s - 23 \<and> drop 23 s ! 0 = CHR ''-'' \<and>
     12 \<le> length s - 24 \<and> list_all hexdigit (take 12 (drop 24 s)) \<and> drop 36 s = t"
    unfolding guid_pattern_def One_nat_def match_hex_iff match_lit_iff
    by (simp del: match_seq.simps(2) nth_drop)
  then have len: "36 \<le> length s" by linarith
  then have "drop 8 s ! 0 = s ! 8" "drop 13 s ! 0 = s ! 13" "drop 18 s ! 0 = s ! 18"
    "drop 23 s ! 0 = s ! 23"
    by simp_all
  with l len show ?R by simp
next
  assume r: ?R
  then have len: "36 \<le> length s" by simp
  then have "Suc 0 \<le> length s - 8" "4 \<le> length s - 9" "Suc 0 \<le> length s - 13"
    "4 \<le> length s - 14" "Suc 0 \<le> length s - 18" "4 \<le> length s - 19"
    "Suc 0 \<le> length s - 23" "12 \<le> length s - 24" "8 \<le> length s"
    by simp_all
  with r show ?L
    unfolding guid_pattern_def One_nat_def match_hex_iff match_lit_iff
    by (simp del: match_seq.simps(2))
qed

lemma match_seq_guid:
  "match_seq guid_pattern s = Some t \<longleftrightarrow> 36 \<le> length s \<and> canonical (take 36 s) \<and> t = drop 36 s"
proof -
  have "canonical (take 36 s) \<longleftrightarrow>
     list_all hexdigit (take 8 s) \<and> s ! 8 = CHR ''-'' \<and>
     list_all hexdigit (take 4 (drop 9 s)) \<and> s ! 13 = CHR ''-'' \<and>
     list_all hexdigit (take 4 (drop 14 s)) \<and> s ! 18 = CHR ''-'' \<and>
     list_all hexdigit (take 4 (drop 19 s)) \<and> s ! 23 = CHR ''-'' \<and>
     list_all hexdigit (take 12 (drop 24 s))" if "36 \<le> length s"
    using that by (simp add: canonical_def drop_take min_absorb2)
  then show ?thesis
    unfolding match_seq_guid_unfolded by blast
qed

lemma guid_match_iff:
  "guid_match s \<longleftrightarrow> canonical s \<or> (\<exists>g. canonical g \<and> s = g @ [newline])"
proof -
  have "guid_match s \<longleftrightarrow> 36 \<le> length s \<and> canonical (take 36 s) \<and> dollar (drop 36 s)"
  proof (cases "match_seq guid_pattern s")
    case None
    have "\<not> (36 \<le> length s \<and> canonical (take 36 s))"
      using None match_seq_guid [of s "drop 36 s"] by simp
    with None show ?thesis by (auto simp: guid_match_def re_match_def)
  next
    case (Some t)
    with match_seq_guid [of s t] show ?thesis by (simp add: guid_match_def re_match_def)
  qed
  also have "\<dots> \<longleftrightarrow> canonical s \<or> (\<exists>g. canonical g \<and> s = g @ [newline])"
  proof
    assume a: "36 \<le> length s \<and> canonical (take 36 s) \<and> dollar (drop 36 s)"
    then have "drop 36 s = [] \<or> drop 36 s = [newline]" by (simp add: dollar_def)
    then show "canonical s \<or> (\<exists>g. canonical g \<and> s = g @ [newline])"
    proof
      assume "drop 36 s = []"
      then have "take 36 s = s" by simp
      with a show ?thesis by simp
    next
      assume "drop 36 s = [newline]"
      then have "s = take 36 s @ [newline]" by (metis append_take_drop_id)
      with a show ?thesis by blast
    qed
  next
    assume "canonical s \<or> (\<exists>g. canonical g \<and> s = g @ [newline])"
    then show "36 \<le> length s \<and> canonical (take 36 s) \<and> dollar (drop 36 s)"
    proof
      assume c: "canonical s"
      then have "length s = 36" by (simp add: canonical_def)
      with c show ?thesis by (simp add: dollar_def)
    next
      assume "\<exists>g. canonical g \<and> s = g @ [newline]"
      then obtain g where g: "canonical g" "s = g @ [newline]" by blast
      then have "length g = 36" by (simp add: canonical_def)
      with g show ?thesis by (simp add: dollar_def)
    qed
  qed
  finally show ?thesis .
qed

section \<open>Reading the table\<close>

lemma split_records_eq:
  "split_records rs g p =
     (g @ filter (\<lambda>r. guid_match (fst r)) rs, p @ filter (\<lambda>r. \<not> guid_match (fst r)) rs)"
  by (induction rs g p rule: split_records.induct) auto

lemma count_invalid_eq:
  "count_invalid ids n = n + length (filter (\<lambda>i. \<not> guid_match i) ids)"
  by (induction ids n rule: count_invalid.induct) auto

lemma find_invalid_ids_eq:
  "find_invalid_ids db = filter (\<lambda>i. \<not> guid_match i) (map id_val db)"
  by (simp add: find_invalid_ids_def check_real_memories_def select_id_scope_def
      select_where_scope_def split_records_eq filter_map comp_def)

lemma find_invalid_ids_set:
  "set (find_invalid_ids db) = {i \<in> id_val ` set db. classify i \<noteq> Valid}"
  by (auto simp: find_invalid_ids_eq classify_def)

lemma plan_purge_eq: "plan_purge db = (length (find_invalid_ids db), db)"
  by (simp add: plan_purge_def select_id_def count_invalid_eq find_invalid_ids_eq)

lemma sum_bump: "sum_list (map snd (bump s g)) = Suc (sum_list (map snd g))"
  by (induction s g rule: bump.induct) auto

lemma keys_bump: "fst ` set (bump s g) = insert s (fst ` set g)"
  by (induction s g rule: bump.induct) auto

lemma distinct_bump: "distinct (map fst g) \<Longrightarrow> distinct (map fst (bump s g))"
  by (induction s g rule: bump.induct) (auto simp: keys_bump)

lemma sum_group_count:
  "sum_list (map snd (group_count ss g)) = sum_list (map snd g) + length ss"
  by (induction ss g rule: group_count.induct) (auto simp: sum_bump)

lemma keys_group_count: "fst ` set (group_count ss g) = fst ` set g \<union> set ss"
  by (induction ss g rule: group_count.induct) (auto simp: keys_bump)

lemma distinct_group_count:
  "distinct (map fst g) \<Longrightarrow> distinct (map fst (group_count ss g))"
  by (induction ss g rule: group_count.induct) (auto simp: distinct_bump)

text \<open>
  Claim C6. At every state of the table, the counts of
  \<open>SELECT scope, COUNT(*) ... GROUP BY scope\<close> add up to the number of rows an
  unfiltered \<open>SELECT\<close> returns, and the scopes listed are exactly the scopes that occur
  in the table, each listed once.
\<close>

theorem count_by_scope_consistent:
  "sum_list (map snd (fst (select_scope_count db))) = length (fst (select_id_scope db))
   \<and> fst ` set (fst (select_scope_count db)) = scope ` set db
   \<and> distinct (map fst (fst (select_scope_count db)))"
  by (simp add: select_scope_count_def select_id_scope_def sum_group_count keys_group_count
      distinct_group_count)

text \<open>
  Claim C7. Computing the invalid ids changes nothing in the table: check_real_memories.py
  (which builds \<open>path_records\<close>) and the counting half of cleanup_invalid_memories.py
  both leave exactly the table they were given, row for row.
\<close>

theorem inspection_reads_only:
  "snd (check_real_memories db) = db \<and> snd (plan_purge db) = db"
  by (simp add: check_real_memories_def select_id_scope_def select_where_scope_def
      plan_purge_def select_id_def split: prod.splits)

section \<open>The Identity Validator\<close>

lemma classify_Valid_iff:
  "classify s = Valid \<longleftrightarrow> canonical s \<or> (\<exists>g. canonical g \<and> s = g @ [newline])"
  by (simp add: classify_def guid_match_iff)

text \<open>
  Claim C2. The claim says that only the 36-character form is classified Valid and
  that a string with extra trailing characters is Invalid. The theorem evaluates the
  pattern at a GUID followed by one newline: the id has 37 characters, it is not of the
  canonical form, and \<open>guid_pattern.match\<close> accepts it, because \<open>$\<close> also matches
  before a final newline. (By \<open>classify_Valid_iff\<close> this is the only kind of
  non-canonical string that is accepted.)
\<close>

theorem classify_accepts_trailing_newline:
  "length (id_val newline_row) = 37
   \<and> \<not> canonical (id_val newline_row)
   \<and> classify (id_val newline_row) = Valid"
  by code_simp

text \<open>
  The \<open>DELETE\<close> of cleanup_invalid_memories.py takes the other view of the same id:
  it is not 36 characters long, so the statement removes it.
\<close>

lemma newline_id_is_deleted: "delete_where (id_val newline_row)"
  by code_simp

text \<open>
  The \<open>DELETE\<close> reads an id up to its first NUL character: a GUID followed by NUL is kept
  (what SQLite matches is the GUID), and 36 characters laid out like a GUID with a NUL
  among them are removed (what SQLite matches is shorter than the layout).
\<close>

lemma delete_reads_id_to_first_nul:
  "length (id_val nul_inside_row) = 36
   \<and> \<not> delete_where (id_val nul_tail_row)
   \<and> delete_where (id_val nul_inside_row)
   \<and> cleanup_invalid_memories ''y'' [nul_tail_row, nul_inside_row]
       = (Deleted 1 [(''Note'', 1)], [nul_tail_row])"
  by code_simp

section \<open>The purge\<close>

lemma delete_invalid_count:
  "fst (delete_invalid db) = length db - length (snd (delete_invalid db))"
proof -
  have "length db =
      length (filter (\<lambda>m. delete_where (id_val m)) db)
      + length (filter (\<lambda>m. \<not> delete_where (id_val m)) db)"
    by (rule sum_length_filter_compl [symmetric])
  then show ?thesis by (simp add: delete_invalid_def)
qed

lemma removed_rows:
  "filter (\<lambda>m. m \<notin> set (snd (delete_invalid db))) db = filter (\<lambda>m. delete_where (id_val m)) db"
  by (rule filter_cong) (auto simp: delete_invalid_def)

lemma scenario_A:
  "find_invalid_ids [guid_row, path_row] = [id_val path_row]
   \<and> cleanup_invalid_memories ''y'' [guid_row, path_row]
       = (Deleted 1 [(''Note'', 1)], [guid_row])"
  by code_simp

text \<open>
  Claim C1. The claim says that after the purge no invalid id is left and every valid
  record is kept. The theorem runs the script on a table holding one row whose id has the
  hyphens of a GUID in the right places but letters that are not hexadecimal digits.
  The pattern rejects the id, so one invalid record is found; the \<open>DELETE\<close> tests only
  the layout (\<open>NOT LIKE '________-____-____-____-____________'\<close>) and the presence of
  a slash or backslash, so it removes nothing, and the id is still reported invalid
  afterwards.
\<close>

theorem purge_leaves_non_hex_id:
  "find_invalid_ids [stray_row] = [id_val stray_row]
   \<and> cleanup_invalid_memories ''y'' [stray_row] = (Deleted 0 [(''Note'', 1)], [stray_row])
   \<and> find_invalid_ids (snd (cleanup_invalid_memories ''y'' [stray_row])) = [id_val stray_row]"
  by code_simp

text \<open>
  The second half of the claim fails on the id of claim C2: the row is classified Valid
  before the purge and is gone after it.
\<close>

lemma purge_removes_newline_guid:
  "classify (id_val newline_row) = Valid
   \<and> cleanup_invalid_memories ''y'' [newline_row, path_row] = (Deleted 2 [], [])"
  by code_simp

text \<open>
  Claim C3, as stated: the commit compares the plan with the current invalid ids and
  fails with PlanStale when they differ. The script makes no such comparison. Here the
  plan was computed on a table with one invalid row; by the time of the commit a second
  invalid row has been written. The commit deletes both rows and reports two.
\<close>

theorem commit_purge_stale_plan_counterexample:
  "set (find_invalid_ids [path_row]) \<noteq> set (find_invalid_ids [path_row, slash_row])
   \<and> commit_purge (fst (plan_purge [path_row])) ''y'' [path_row, slash_row]
       = (Deleted 2 [], [])"
  by code_simp

text \<open>
  Claim C3, amended. The commit never compares the plan with the table and has no
  PlanStale outcome. When the plan counted at least one id and the answer is \<open>y\<close> or
  \<open>Y\<close>, one \<open>DELETE\<close> removes every row that satisfies its \<open>WHERE\<close> clause at that
  moment, whatever the plan was computed from, and the count returned is the number of
  rows removed; otherwise the table is left as it is. Where the \<open>WHERE\<close> clause and the
  classification agree on every stored id, the ids removed are exactly those currently
  classified Invalid.
\<close>

theorem commit_purge_deletes_current_matches:
  "snd (commit_purge invalid_count response db) =
     (if 0 < invalid_count \<and> lower response = ''y''
      then filter (\<lambda>m. \<not> delete_where (id_val m)) db else db)
   \<and> (0 < invalid_count \<and> lower response = ''y'' \<longrightarrow>
        (\<exists>remaining. fst (commit_purge invalid_count response db) =
           Deleted (length db - length (snd (commit_purge invalid_count response db))) remaining))
   \<and> (0 < invalid_count \<and> lower response = ''y''
        \<and> (\<forall>m \<in> set db. delete_where (id_val m) \<longleftrightarrow> classify (id_val m) = Invalid) \<longrightarrow>
        map id_val (filter (\<lambda>m. m \<notin> set (snd (commit_purge invalid_count response db))) db)
          = find_invalid_ids db)"
proof (cases "0 < invalid_count \<and> lower response = ''y''")
  case False
  then show ?thesis by (auto simp: commit_purge_def)
next
  case True
  then have run: "commit_purge invalid_count response db =
      (Deleted (fst (delete_invalid db)) (fst (select_scope_count (snd (delete_invalid db)))),
       snd (delete_invalid db))"
    by (simp add: commit_purge_def select_scope_count_def split: prod.splits)
  have a: "snd (commit_purge invalid_count response db) =
      filter (\<lambda>m. \<not> delete_where (id_val m)) db"
    by (simp add: run delete_invalid_def)
  have b: "\<exists>remaining. fst (commit_purge invalid_count response db) =
      Deleted (length db - length (snd (commit_purge invalid_count response db))) remaining"
    using delete_invalid_count [of db] by (simp add: run)
  have c: "map id_val (filter (\<lambda>m. m \<notin> set (snd (commit_purge invalid_count response db))) db)
      = find_invalid_ids db"
    if agree: "\<forall>m \<in> set db. delete_where (id_val m) \<longleftrightarrow> classify (id_val m) = Invalid"
  proof -
    have "filter (\<lambda>m. delete_where (id_val m)) db = filter (\<lambda>m. \<not> guid_match (id_val m)) db"
      by (rule filter_cong) (use agree in \<open>auto simp: classify_def split: if_splits\<close>)
    then show ?thesis
      by (simp add: run removed_rows find_invalid_ids_eq filter_map comp_def)
  qed
  from True a b c show ?thesis by simp
qed

theorem commit_purge_deletes_current_matches_witness:
  "snd (commit_purge 1 ''y'' [guid_row, path_row]) = [guid_row]
   \<and> fst (commit_purge 1 ''y'' [guid_row, path_row]) = Deleted 1 [(''Note'', 1)]
   \<and> map id_val (filter (\<lambda>m. m \<notin> set (snd (commit_purge 1 ''y'' [guid_row, path_row])))
        [guid_row, path_row]) = [id_val path_row]"
proof -
  have confirmed: "0 < (1::nat) \<and> lower ''y'' = ''y''"
    by code_simp
  have agree: "\<forall>m \<in> set [guid_row, path_row].
      delete_where (id_val m) \<longleftrightarrow> classify (id_val m) = Invalid"
    by code_simp
  have found: "find_invalid_ids [guid_row, path_row] = [id_val path_row]"
    by code_simp
  have kept: "filter (\<lambda>m. \<not> delete_where (id_val m)) [guid_row, path_row] = [guid_row]"
    by code_simp
  have groups: "fst (select_scope_count [guid_row]) = [(''Note'', 1)]"
    by code_simp
  note inst = commit_purge_deletes_current_matches [of 1 "''y''" "[guid_row, path_row]"]
  from inst confirmed kept have a: "snd (commit_purge 1 ''y'' [guid_row, path_row]) = [guid_row]"
    by simp
  from inst confirmed agree
  have "map id_val (filter (\<lambda>m. m \<notin> set (snd (commit_purge 1 ''y'' [guid_row, path_row])))
        [guid_row, path_row]) = find_invalid_ids [guid_row, path_row]"
    by blast
  with found
  have c: "map id_val (filter (\<lambda>m. m \<notin> set (snd (commit_purge 1 ''y'' [guid_row, path_row])))
        [guid_row, path_row]) = [id_val path_row]"
    by (simp only:)
  from inst confirmed a obtain remaining where
    "fst (commit_purge 1 ''y'' [guid_row, path_row]) = Deleted 1 remaining"
    by auto
  moreover have "fst (commit_purge 1 ''y'' [guid_row, path_row]) = Deleted 1 [(''Note'', 1)]"
    by code_simp
  ultimately show ?thesis using a c by simp
qed

section \<open>The duplicate check\<close>

lemma loop_keys:
  "fst ` set (snd (backup_loop rows P B)) = fst ` set B \<union> fst ` set rows"
  by (induction rows P B rule: backup_loop.induct) (auto simp: dom_update)

lemma loop_distinct:
  "distinct (map fst B) \<Longrightarrow> distinct (map fst (snd (backup_loop rows P B)))"
  by (induction rows P B rule: backup_loop.induct) (auto simp: distinct_update)

lemma loop_dict:
  "map_of (snd (backup_loop rows P B)) k =
     (case map_of (rev rows) k of None \<Rightarrow> map_of B k | Some v \<Rightarrow> Some v)"
  by (induction rows P B rule: backup_loop.induct)
    (auto simp: update_conv' map_add_def split: option.splits)

lemma loop_count:
  "length (filter (\<lambda>d. fst d = i) (fst (backup_loop rows P B))) =
     length (filter (\<lambda>d. fst d = i) P) + count_list (map fst rows) i
     - (if i \<in> fst ` set B \<or> count_list (map fst rows) i = 0 then 0 else 1)"
proof (induction rows P B rule: backup_loop.induct)
  case (1 printed backup_ids)
  then show ?case by simp
next
  case (2 j s rows printed backup_ids)
  show ?case
  proof (cases "map_of backup_ids j")
    case None
    then have "j \<notin> fst ` set backup_ids" by (simp add: map_of_eq_None_iff)
    with None 2 show ?thesis by (auto simp: dom_update)
  next
    case (Some held)
    then have "j \<in> fst ` set backup_ids" by (metis map_of_eq_None_iff option.distinct(1))
    with Some 2 show ?thesis by (auto simp: dom_update)
  qed
qed

lemma set_dict_update: "set (AList.update k v al) \<subseteq> insert (k, v) (set al)"
  by (induction al) auto

lemma loop_lines:
  "(i, p, s) \<in> set (fst (backup_loop rows P B)) \<Longrightarrow>
     (i, p, s) \<in> set P \<or> ((i, s) \<in> set rows \<and> ((i, p) \<in> set rows \<or> (i, p) \<in> set B))"
proof (induction rows P B rule: backup_loop.induct)
  case (1 printed backup_ids)
  then show ?case by simp
next
  case (2 j t rows printed backup_ids)
  from "2.IH" [OF "2.prems" [simplified]] set_dict_update [of j t backup_ids]
  show ?case
    by (auto split: option.splits dest: map_of_SomeD)
qed

lemma check_memory_ids_eq:
  "check_memory_ids db =
     (\<lparr>duplicates = fst (backup_loop (map (\<lambda>m. (id_val m, scope m)) db) [] []),
       backup_ids = snd (backup_loop (map (\<lambda>m. (id_val m, scope m)) db) [] []),
       unique_ids = length (snd (backup_loop (map (\<lambda>m. (id_val m, scope m)) db) [] []))\<rparr>,
      db)"
  by (simp add: check_memory_ids_def select_id_scope_def split: prod.splits)

lemma loop_lines_exact:
  "fst (backup_loop rows P B) =
     P @ concat (map (\<lambda>k. case map_of (rev (take k rows) @ B) (fst (rows ! k)) of
                            None \<Rightarrow> []
                          | Some held \<Rightarrow> [(fst (rows ! k), held, snd (rows ! k))])
                  [0..<length rows])"
proof (induction rows P B rule: backup_loop.induct)
  case (1 printed backup_ids)
  show ?case by simp
next
  case (2 i s rows printed backup_ids)
  have first: "(case map_of backup_ids i of None \<Rightarrow> printed
      | Some held \<Rightarrow> printed @ [(i, held, s)]) =
      printed @ (case map_of backup_ids i of None \<Rightarrow> [] | Some held \<Rightarrow> [(i, held, s)])"
    by (simp split: option.splits)
  have rest: "concat (map (\<lambda>k. case map_of (rev (take k ((i, s) # rows)) @ backup_ids)
                                   (fst (((i, s) # rows) ! k)) of
                            None \<Rightarrow> []
                          | Some held \<Rightarrow> [(fst (((i, s) # rows) ! k), held, snd (((i, s) # rows) ! k))])
                  [0..<length ((i, s) # rows)])
      = (case map_of backup_ids i of None \<Rightarrow> [] | Some held \<Rightarrow> [(i, held, s)])
        @ concat (map (\<lambda>k. case map_of (rev (take k rows) @ AList.update i s backup_ids)
                                   (fst (rows ! k)) of
                            None \<Rightarrow> []
                          | Some held \<Rightarrow> [(fst (rows ! k), held, snd (rows ! k))])
                  [0..<length rows])"
    by (simp add: map_upt_Suc update_conv' del: upt_Suc cong: option.case_cong)
  have "fst (backup_loop ((i, s) # rows) printed backup_ids)
      = fst (backup_loop rows
          (case map_of backup_ids i of None \<Rightarrow> printed | Some held \<Rightarrow> printed @ [(i, held, s)])
          (AList.update i s backup_ids))"
    by simp
  also note "2.IH"
  finally show ?case
    by (simp only: first rest append_assoc)
qed

lemma duplicates_exact:
  "duplicates (fst (check_memory_ids db)) =
     concat (map (\<lambda>k. expected_line (take k (map (\<lambda>m. (id_val m, scope m)) db))
                         (map (\<lambda>m. (id_val m, scope m)) db ! k))
               [0..<length db])"
  using loop_lines_exact [of "map (\<lambda>m. (id_val m, scope m)) db" "[]" "[]"]
  by (simp add: check_memory_ids_eq expected_line_def)

lemma check_memory_ids_counts:
  "snd (check_memory_ids db) = db
   \<and> fst ` set (duplicates (fst (check_memory_ids db))) = {i. 1 < count_list (map id_val db) i}
   \<and> length (filter (\<lambda>d. fst d = i) (duplicates (fst (check_memory_ids db))))
       = count_list (map id_val db) i - 1
   \<and> (\<forall>(j, held, s) \<in> set (duplicates (fst (check_memory_ids db))).
         (\<exists>m \<in> set db. id_val m = j \<and> scope m = held)
         \<and> (\<exists>m \<in> set db. id_val m = j \<and> scope m = s))
   \<and> map_of (backup_ids (fst (check_memory_ids db))) i
       = map_of (rev (map (\<lambda>m. (id_val m, scope m)) db)) i
   \<and> unique_ids (fst (check_memory_ids db)) = card (id_val ` set db)"
proof -
  define rows where "rows = map (\<lambda>m. (id_val m, scope m)) db"
  have ids: "map fst rows = map id_val db"
    by (simp add: rows_def comp_def)
  have cnt: "length (filter (\<lambda>d. fst d = k) (fst (backup_loop rows [] [])))
      = count_list (map id_val db) k - 1" for k
    using loop_count [of k rows "[]" "[]"] by (simp add: ids)
  have "k \<in> fst ` set (fst (backup_loop rows [] [])) \<longleftrightarrow> 1 < count_list (map id_val db) k" for k
  proof -
    have "k \<in> fst ` set (fst (backup_loop rows [] []))
        \<longleftrightarrow> filter (\<lambda>d. fst d = k) (fst (backup_loop rows [] [])) \<noteq> []"
      by (auto simp: filter_empty_conv)
    also have "\<dots> \<longleftrightarrow> 0 < length (filter (\<lambda>d. fst d = k) (fst (backup_loop rows [] [])))"
      by simp
    also have "\<dots> \<longleftrightarrow> 1 < count_list (map id_val db) k"
      by (simp only: cnt) arith
    finally show ?thesis .
  qed
  then have reported: "fst ` set (fst (backup_loop rows [] [])) = {i. 1 < count_list (map id_val db) i}"
    by blast
  have lines: "(\<exists>m \<in> set db. id_val m = j \<and> scope m = held)
      \<and> (\<exists>m \<in> set db. id_val m = j \<and> scope m = s)"
    if "(j, held, s) \<in> set (fst (backup_loop rows [] []))" for j held s
    using loop_lines [OF that] by (auto simp: rows_def)
  have dict: "map_of (snd (backup_loop rows [] [])) i = map_of (rev rows) i"
    by (simp add: loop_dict split: option.splits)
  have "distinct (map fst (snd (backup_loop rows [] [])))"
    by (rule loop_distinct) simp
  then have "length (snd (backup_loop rows [] [])) = card (fst ` set (snd (backup_loop rows [] [])))"
    by (metis distinct_card length_map set_map)
  also have "\<dots> = card (id_val ` set db)"
    by (simp add: loop_keys rows_def image_image)
  finally have size: "length (snd (backup_loop rows [] [])) = card (id_val ` set db)" .
  show ?thesis
    unfolding check_memory_ids_eq rows_def [symmetric]
    using cnt [of i] reported lines dict size by auto
qed

text \<open>
  Scenario B of the specification. Each snapshot is a table of its own, and the script
  reads one table: run on either snapshot it prints nothing. Only when both rows stand
  in one table is the shared id printed, once, with both scopes.
\<close>

lemma scenario_B:
  "duplicates (fst (check_memory_ids note_snapshot)) = []
   \<and> duplicates (fst (check_memory_ids decision_snapshot)) = []
   \<and> duplicates (fst (check_memory_ids (note_snapshot @ decision_snapshot)))
       = [(shared_id, ''Note'', ''ArchitecturalDecision'')]"
  by code_simp

text \<open>
  Claim C4, as stated: every id that occurs in more than one snapshot is mapped to the
  full list of its occurrences, each with its scope and the snapshot it came from. The
  script reads one table and keeps no origin. The id shared by the two snapshots of
  Scenario B is reported for neither of them. And where one table does hold an id three
  times, the script prints two lines, each naming two scopes, and its dictionary ends
  with the last scope alone.
\<close>

theorem check_memory_ids_pairs_counterexample:
  "id_val (hd note_snapshot) = id_val (hd decision_snapshot)
   \<and> duplicates (fst (check_memory_ids note_snapshot)) = []
   \<and> duplicates (fst (check_memory_ids decision_snapshot)) = []
   \<and> check_memory_ids triple_rows =
       (\<lparr>duplicates = [(shared_id, ''Note'', ''ArchitecturalDecision''),
                        (shared_id, ''ArchitecturalDecision'', ''TechnicalDebt'')],
         backup_ids = [(shared_id, ''TechnicalDebt'')],
         unique_ids = 1\<rparr>,
        triple_rows)"
  by code_simp

lemma distinct_count_list: "distinct xs \<Longrightarrow> count_list xs x \<le> 1"
  by (induction xs) (auto simp: count_list_0_iff)

text \<open>
  Claim C4, amended. The duplicate check reads the rows of one backup table. For every
  row whose id was already seen it prints the id with the scope recorded so far, which
  is the scope of the latest earlier row of that id, and the row's own scope; for a row
  with a new id it prints nothing; no snapshot of origin is recorded. So an id is printed
  if and only if it occurs in more than one row of the table, once for each occurrence
  after the first, and never when the ids of the table are distinct. The dictionary
  keeps the scope of the last row of each id, and its size is the number of distinct
  ids. The table is only read: no row is removed, overwritten or merged.
\<close>

theorem check_memory_ids_reports:
  "snd (check_memory_ids db) = db
   \<and> duplicates (fst (check_memory_ids db))
       = concat (map (\<lambda>k. expected_line (take k (map (\<lambda>m. (id_val m, scope m)) db))
                            (map (\<lambda>m. (id_val m, scope m)) db ! k))
                  [0..<length db])
   \<and> fst ` set (duplicates (fst (check_memory_ids db))) = {i. 1 < count_list (map id_val db) i}
   \<and> length (filter (\<lambda>d. fst d = i) (duplicates (fst (check_memory_ids db))))
       = count_list (map id_val db) i - 1
   \<and> (distinct (map id_val db) \<longrightarrow> duplicates (fst (check_memory_ids db)) = [])
   \<and> (\<forall>(j, held, s) \<in> set (duplicates (fst (check_memory_ids db))).
         (\<exists>m \<in> set db. id_val m = j \<and> scope m = held)
         \<and> (\<exists>m \<in> set db. id_val m = j \<and> scope m = s))
   \<and> map_of (backup_ids (fst (check_memory_ids db))) i
       = map_of (rev (map (\<lambda>m. (id_val m, scope m)) db)) i
   \<and> unique_ids (fst (check_memory_ids db)) = card (id_val ` set db)"
proof -
  note counts = check_memory_ids_counts [of db i]
  have "duplicates (fst (check_memory_ids db)) = []" if "distinct (map id_val db)"
  proof -
    have "{j. 1 < count_list (map id_val db) j} = {}"
      using distinct_count_list [OF that] by (auto simp: not_less)
    with counts have "fst ` set (duplicates (fst (check_memory_ids db))) = {}"
      by simp
    then show ?thesis by simp
  qed
  with counts duplicates_exact [of db] show ?thesis
    by blast
qed

theorem check_memory_ids_reports_witness:
  "duplicates (fst (check_memory_ids triple_rows))
     = [(shared_id, ''Note'', ''ArchitecturalDecision''),
        (shared_id, ''ArchitecturalDecision'', ''TechnicalDebt'')]
   \<and> duplicates (fst (check_memory_ids note_snapshot)) = []
   \<and> unique_ids (fst (check_memory_ids triple_rows)) = 1
   \<and> map_of (backup_ids (fst (check_memory_ids triple_rows))) shared_id = Some ''TechnicalDebt''"
proof -
  have expected:
    "concat (map (\<lambda>k. expected_line (take k (map (\<lambda>m. (id_val m, scope m)) triple_rows))
                         (map (\<lambda>m. (id_val m, scope m)) triple_rows ! k))
               [0..<length triple_rows])
       = [(shared_id, ''Note'', ''ArchitecturalDecision''),
          (shared_id, ''ArchitecturalDecision'', ''TechnicalDebt'')]"
    by code_simp
  have one_row: "distinct (map id_val note_snapshot)"
    by code_simp
  have distinct_ids: "card (id_val ` set triple_rows) = 1"
    by code_simp
  have last_scope: "map_of (rev (map (\<lambda>m. (id_val m, scope m)) triple_rows)) shared_id
      = Some ''TechnicalDebt''"
    by code_simp
  from check_memory_ids_reports [of note_snapshot shared_id] one_row
  have "duplicates (fst (check_memory_ids note_snapshot)) = []"
    by blast
  with check_memory_ids_reports [of triple_rows shared_id] expected distinct_ids last_scope
  show ?thesis by simp
qed

section \<open>Listing the fields of a payload\<close>

lemma show_fields_error: "show_fields (Inl e) = [CouldNotParse]"
  by (simp add: show_fields_def)

lemma show_fields_scalar:
  "show_fields (Inr JNull) = [CouldNotParse]"
  "show_fields (Inr (JBool b)) = [CouldNotParse]"
  "show_fields (Inr (JNumber n)) = [CouldNotParse]"
  by (simp_all add: show_fields_def)

lemma show_fields_array:
  "show_fields (Inr (JArray xs)) = (if JString ''fields'' \<in> set xs then [CouldNotParse] else [])"
  by (simp add: show_fields_def)

lemma show_fields_string:
  "show_fields (Inr (JString s)) = (if str_contains ''fields'' s then [CouldNotParse] else [])"
  by (simp add: show_fields_def)

text \<open>
  Claim C5, as stated: every payload that is not well-formed JSON or does not encode an
  object is reported as malformed. The payload \<open>[]\<close> is well-formed JSON and not an
  object; \<open>'fields' in []\<close> is simply false, nothing raises, and the script prints
  neither a field nor the could-not-parse line.
\<close>

theorem inspect_fields_array_counterexample:
  "loads_examples (json_data array_row) = Inr (JArray [])
   \<and> field_lines (inspect_record loads_examples array_row) = []"
  by code_simp

text \<open>
  Claim C5, amended. Let the payload be one that \<open>json.loads\<close> rejects or decodes to
  something other than an object. The listing never raises and prints no field name.
  It prints the could-not-parse line when the decoder raised, when the value is
  \<open>null\<close>, a boolean or a number, when it is an array with the string \<open>fields\<close> among
  its elements, and when it is a string containing \<open>fields\<close>; for any other array or
  string it prints nothing at all. In every case the record's id, its scope and the
  first 100 characters of its content have been printed.
\<close>

theorem inspect_fields_not_object:
  assumes "\<forall>items. loads raw \<noteq> Inr (JObject items)"
  shows "inspect_fields loads raw =
           (if (\<exists>xs. loads raw = Inr (JArray xs) \<and> JString ''fields'' \<notin> set xs)
               \<or> (\<exists>s. loads raw = Inr (JString s) \<and> \<not> str_contains ''fields'' s)
            then [] else [CouldNotParse])
         \<and> (json_data m = raw \<longrightarrow>
              sample_id (inspect_record loads m) = id_val m
              \<and> sample_scope (inspect_record loads m) = scope m
              \<and> content_preview (inspect_record loads m) = take 100 (content m)
              \<and> field_lines (inspect_record loads m) = inspect_fields loads raw)"
proof (cases "loads raw")
  case (Inl e)
  then show ?thesis
    by (simp add: inspect_fields_def inspect_record_def show_fields_error)
next
  case (Inr data)
  with assms show ?thesis
    by (cases data)
      (simp_all add: inspect_fields_def inspect_record_def show_fields_scalar
        show_fields_array show_fields_string)
qed

theorem inspect_fields_not_object_witness:
  "inspect_fields loads_examples ''{not json'' = [CouldNotParse]
   \<and> sample_scope (inspect_record loads_examples broken_row) = ''Note''
   \<and> content_preview (inspect_record loads_examples broken_row) = ''x''
   \<and> field_lines (inspect_record loads_examples broken_row) = [CouldNotParse]"
proof -
  have decode: "loads_examples ''{not json'' = Inl JSONDecodeError"
    by code_simp
  then have not_object: "\<forall>items. loads_examples ''{not json'' \<noteq> Inr (JObject items)"
    by simp
  have row: "json_data broken_row = ''{not json''" "scope broken_row = ''Note''"
    "take 100 (content broken_row) = ''x''"
    by code_simp+
  from inspect_fields_not_object [of loads_examples "''{not json''" broken_row] not_object
    decode row
  show ?thesis by simp
qed

section \<open>The file-based memory manager\<close>

lemma save_memory_raises: "save_memory memory_dir name content' = Inl TypeError"
  by (simp add: save_memory_def call_open_def webbrowser_open_parameters_def)

lemma same_file:
  "replace_md n = replace_md n' \<Longrightarrow>
     get_memory_file_path memory_dir n = get_memory_file_path memory_dir n'"
  by (simp add: get_memory_file_path_def)

lemma dot_slash_same_file:
  "get_memory_file_path root_dir ''./notes'' = get_memory_file_path root_dir ''notes''
   \<and> get_memory_file_path root_dir ''notes.md'' = get_memory_file_path root_dir ''notes''"
  by code_simp

lemma load_memory_present_raises:
  "path_exists pf fs (get_memory_file_path memory_dir name) = Inr True \<Longrightarrow>
     load_memory pf memory_dir name fs = Inl TypeError"
  by (simp add: load_memory_def call_open_def webbrowser_open_parameters_def)

lemma save_then_load_raises:
  "save_then_load pf memory_dir name content' name' fs = Inl TypeError"
  by (simp add: save_then_load_def save_memory_raises)

















text \<open>
  Claim C9. The claim says that a save under one spelling of a name followed by a load
  under another returns the content. The two spellings do name one file
  (\<open>same_file\<close>), but no content is ever written or read: in this module \<open>open\<close> is
  \<open>webbrowser.open\<close>, which has no parameter \<open>encoding\<close>, so \<open>save_memory\<close> raises
  \<open>TypeError\<close> on every call, and so does \<open>load_memory\<close> for a memory that exists.
  The theorem runs a save under \<open>x.md\<close> followed by a load under \<open>x\<close>, and a load of
  the stored \<open>notes\<close>.
\<close>

theorem save_memory_raises_type_error:
  "save_memory root_dir ''x.md'' ''remember'' = Inl TypeError
   \<and> save_then_load single_dir root_dir ''x.md'' ''remember'' ''x'' notes_fs = Inl TypeError
   \<and> load_memory single_dir root_dir ''notes'' notes_fs = Inl TypeError"
  by code_simp




end
